theory Spec2Isabelle
  imports Main
begin

text \<open>
  A model of the pipeline server of oneshot (src/server.ts and src/index.ts) and the
  properties proved of it. The first part translates the code: the progress inference
  detectStatus, the handler of the step-run route with its run tracker, step 2 from the
  response of the text generation to script.json (with the library functions it calls:
  indexOf, slice, the two regular-expression replacements and JSON.parse) and step 5.
  The second part states and proves the results, one section for each of these.
  Calls to the providers are parameters of the model: a call ends by returning a value
  or by throwing, and the model is told which.
\<close>

section \<open>Progress inference (server.ts, detectStatus)\<close>

text \<open>
  A directory listing is the array \<^verbatim>\<open>fs.readdirSync(dir)\<close> returns: a list of file
  names. A directory that does not exist is \<open>None\<close>. (A path that exists and is no
  directory makes \<^verbatim>\<open>readdirSync\<close> throw; detectStatus is modelled on directories.)
  File names are strings of code units; every character the checks below look at is
  ASCII.
\<close>

record project_status =
  completedStep :: nat
  artifacts :: "string list"

text \<open>The character class \<^verbatim>\<open>\d\<close> of a JavaScript regular expression: the ASCII digits.\<close>

definition isDigit :: "char \<Rightarrow> bool" where
  "isDigit c = (c \<in> set ''0123456789'')"

text \<open>\<^verbatim>\<open>f.endsWith(suffix)\<close>.\<close>

definition endsWith :: "string \<Rightarrow> string \<Rightarrow> bool" where
  "endsWith f suffix =
     (length suffix \<le> length f \<and> drop (length f - length suffix) f = suffix)"

text \<open>\<^verbatim>\<open>f.startsWith(prefix)\<close>, returning the rest of the string after the prefix.\<close>

fun afterPrefix :: "string \<Rightarrow> string \<Rightarrow> string option" where
  "afterPrefix [] f = Some f"
| "afterPrefix (p # ps) [] = None"
| "afterPrefix (p # ps) (c # cs) = (if p = c then afterPrefix ps cs else None)"

text \<open>
  \<^verbatim>\<open>f.match(/^<name>\d+<ext>$/)\<close> for the two patterns of detectStatus,
  \<^verbatim>\<open>/^keyframe\d+\.jpg$/\<close> and \<^verbatim>\<open>/^segment\d+\.mp4$/\<close>. The extension starts
  with a dot, which is no digit, so the greedy \<^verbatim>\<open>\d+\<close> takes every digit after the
  name and the match succeeds exactly when at least one digit was taken and the rest of
  the string is the extension. Without the \<^verbatim>\<open>m\<close> flag \<^verbatim>\<open>$\<close> is the end of the string.
\<close>

definition matchNumbered :: "string \<Rightarrow> string \<Rightarrow> string \<Rightarrow> bool" where
  "matchNumbered name ext f =
     (case afterPrefix name f of
        None \<Rightarrow> False
      | Some rest \<Rightarrow> takeWhile isDigit rest \<noteq> [] \<and> dropWhile isDigit rest = ext)"

definition isKeyframe :: "string \<Rightarrow> bool" where
  "isKeyframe f = matchNumbered ''keyframe'' ''.jpg'' f"

definition isSegment :: "string \<Rightarrow> bool" where
  "isSegment f = matchNumbered ''segment'' ''.mp4'' f"

text \<open>The filter that selects the artifacts of the listing.\<close>

definition isArtifact :: "string \<Rightarrow> bool" where
  "isArtifact f =
     (endsWith f ''.jpg'' \<or> endsWith f ''.mp4'' \<or> endsWith f ''.json'' \<or> f = ''input.txt'')"

text \<open>
  The six assignments of detectStatus, in the order of the source: each \<^verbatim>\<open>if\<close>
  overwrites \<^verbatim>\<open>completedStep\<close> when its own condition holds, whatever the earlier
  ones did.
\<close>

definition assignIf :: "bool \<Rightarrow> nat \<Rightarrow> nat \<Rightarrow> nat" where
  "assignIf cond n completed = (if cond then n else completed)"

definition completedStepOf :: "string list \<Rightarrow> nat" where
  "completedStepOf files =
     (let completed = 0;
          completed = assignIf (''input.txt'' \<in> set files) 1 completed;
          completed = assignIf (''script.json'' \<in> set files) 2 completed;
          completed = assignIf (''character.jpg'' \<in> set files) 3 completed;
          completed = assignIf (list_ex isKeyframe files) 4 completed;
          completed = assignIf (list_ex isSegment files) 5 completed;
          completed = assignIf (''movie.mp4'' \<in> set files \<or> ''output.mp4'' \<in> set files) 6 completed
      in completed)"

definition detectStatus :: "string list option \<Rightarrow> project_status" where
  "detectStatus dir =
     (case dir of
        None \<Rightarrow> \<lparr>completedStep = 0, artifacts = []\<rparr>
      | Some files \<Rightarrow>
          \<lparr>completedStep = completedStepOf files, artifacts = filter isArtifact files\<rparr>)"

subsection \<open>The naming convention of the specification\<close>





section \<open>The step-run request handler (server.ts)\<close>

subsection \<open>parseInt\<close>

text \<open>
  The Number values \<^verbatim>\<open>parseInt\<close> returns, as far as the handler can tell them apart:
  \<open>NaN\<close>, or an integer. (For a numeral of more than about 20 digits JavaScript
  returns the nearest double; rounding is monotone and exact on small integers, so the
  comparisons with 1 and 6 and the \<^verbatim>\<open>switch\<close> on 1 to 6 give the same answers on
  the exact integer.)
\<close>

datatype jsnum = NaN | Num int

text \<open>\<^verbatim>\<open>x < k\<close> and \<^verbatim>\<open>x > k\<close> on Numbers: every comparison with NaN is false.\<close>

definition js_lt :: "jsnum \<Rightarrow> int \<Rightarrow> bool" where
  "js_lt x k = (case x of NaN \<Rightarrow> False | Num n \<Rightarrow> n < k)"

definition js_gt :: "jsnum \<Rightarrow> int \<Rightarrow> bool" where
  "js_gt x k = (case x of NaN \<Rightarrow> False | Num n \<Rightarrow> n > k)"

text \<open>
  The white space \<^verbatim>\<open>parseInt\<close> skips and \<^verbatim>\<open>\s\<close> matches, among the code units
  below 256: tab, line feed, vertical tab, form feed, carriage return, space and the
  no-break space.
\<close>

definition isStrWhiteSpace :: "char \<Rightarrow> bool" where
  "isStrWhiteSpace c = (of_char c \<in> set [9, 10, 11, 12, 13, 32, 160 :: nat])"

text \<open>The value of a character as a digit, 36 when it is none.\<close>

definition digitValue :: "char \<Rightarrow> nat" where
  "digitValue c =
     (if c \<in> set ''0123456789'' then of_char c - 48
      else if c \<in> set ''abcdefghijklmnopqrstuvwxyz'' then of_char c - 87
      else if c \<in> set ''ABCDEFGHIJKLMNOPQRSTUVWXYZ'' then of_char c - 55
      else 36)"

definition isRadixDigit :: "nat \<Rightarrow> char \<Rightarrow> bool" where
  "isRadixDigit R c = (digitValue c < R)"

definition radixValue :: "nat \<Rightarrow> string \<Rightarrow> nat" where
  "radixValue R Z = foldl (\<lambda>acc c. acc * R + digitValue c) 0 Z"

text \<open>
  \<^verbatim>\<open>parseInt(inputString)\<close> with no radix argument, step by step as ECMAScript
  defines it: skip leading white space, read a sign, read the prefix 0x or 0X (radix 16,
  otherwise radix 10), take the longest run of digits of the radix; NaN when that run
  is empty. Whatever follows the digits is ignored.
\<close>

definition parseInt :: "string \<Rightarrow> jsnum" where
  "parseInt inputString =
     (let S = dropWhile isStrWhiteSpace inputString;
          sign = (if take 1 S = ''-'' then - 1 else 1);
          S = (if take 1 S = ''+'' \<or> take 1 S = ''-'' then drop 1 S else S);
          hex = (take 2 S = ''0x'' \<or> take 2 S = ''0X'');
          R = (if hex then 16 else 10);
          S = (if hex then drop 2 S else S);
          Z = takeWhile (isRadixDigit R) S
      in if Z = [] then NaN else Num (sign * int (radixValue R Z)))"

subsection \<open>The run tracker and the handler\<close>

text \<open>
  \<^verbatim>\<open>const running = new Map<string, number>()\<close>: project id to the step number
  recorded for the request in flight.
\<close>

type_synonym run_tracker = "string \<rightharpoonup> jsnum"

text \<open>
  The request: the two path parameters and \<^verbatim>\<open>req.body.description\<close>
  (\<open>None\<close> when the body, an object, has none; a string when present, as step1 declares
  it).
\<close>

record request =
  projectId :: string
  stepNumParam :: string
  description :: "string option"

text \<open>The JSON bodies the handler sends, and the response with its status code.\<close>

datatype body =
    StepNumMustBe1to6
  | AlreadyRunning jsnum
  | DescriptionRequired
  | StepError string
  | Status string project_status

record response =
  statusCode :: nat
  jsonBody :: body

text \<open>\<^verbatim>\<open>!description\<close>: a missing description and the empty string are falsy.\<close>

definition noDescription :: "string option \<Rightarrow> bool" where
  "noDescription d = (case d of None \<Rightarrow> True | Some given \<Rightarrow> given = [])"

text \<open>
  What the \<^verbatim>\<open>switch (stepNum)\<close> of the handler selects: a step function to call,
  the early return of case 1 when the description is missing, or nothing when no case
  label is strictly equal to stepNum (NaN is equal to no label).
\<close>

datatype selected = CallStep nat | RejectDescription | NoCase

definition selectStep :: "jsnum \<Rightarrow> string option \<Rightarrow> selected" where
  "selectStep stepNum d =
     (case stepNum of
        NaN \<Rightarrow> NoCase
      | Num n \<Rightarrow>
          if n = 1 then (if noDescription d then RejectDescription else CallStep 1)
          else if n = 2 then CallStep 2
          else if n = 3 then CallStep 3
          else if n = 4 then CallStep 4
          else if n = 5 then CallStep 5
          else if n = 6 then CallStep 6
          else NoCase)"

text \<open>
  The handler up to and including \<^verbatim>\<open>running.set(id, stepNum)\<close> and the switch. It
  runs without interruption (no \<^verbatim>\<open>await\<close> before the step function is called). The
  result is either the response of one of the two early returns, with the tracker as it
  was, or the selection of the switch, with the tracker holding the new entry.
\<close>

definition enter :: "run_tracker \<Rightarrow> request \<Rightarrow> (response + selected) \<times> run_tracker" where
  "enter running req =
     (let pid = projectId req;
          stepNum = parseInt (stepNumParam req)
      in if js_lt stepNum 1 \<or> js_gt stepNum 6
         then (Inl \<lparr>statusCode = 400, jsonBody = StepNumMustBe1to6\<rparr>, running)
         else case running pid of
                Some current \<Rightarrow>
                  (Inl \<lparr>statusCode = 409, jsonBody = AlreadyRunning current\<rparr>, running)
              | None \<Rightarrow>
                  (Inr (selectStep stepNum (description req)), running(pid \<mapsto> stepNum)))"

text \<open>
  How the \<^verbatim>\<open>try\<close> block ends: by the early return of case 1; normally, after the
  selected step function (if any) returned and detectStatus read the listing given here;
  or by an exception with the given message, thrown by the step function or later.
\<close>

datatype outcome = DescriptionMissing | Completed "string list option" | Thrown string

text \<open>
  The rest of the handler: the response of the \<^verbatim>\<open>try\<close> block or of the
  \<^verbatim>\<open>catch\<close> clause, and the \<^verbatim>\<open>finally\<close> clause \<^verbatim>\<open>running.delete(id)\<close>, which
  runs on each of the three ways.
\<close>

definition leave :: "run_tracker \<Rightarrow> string \<Rightarrow> outcome \<Rightarrow> response \<times> run_tracker" where
  "leave running pid oc =
     (let res = (case oc of
                   DescriptionMissing \<Rightarrow> \<lparr>statusCode = 400, jsonBody = DescriptionRequired\<rparr>
                 | Completed listing \<Rightarrow>
                     \<lparr>statusCode = 200, jsonBody = Status pid (detectStatus listing)\<rparr>
                 | Thrown message \<Rightarrow> \<lparr>statusCode = 500, jsonBody = StepError message\<rparr>)
      in (res, running(pid := None)))"

text \<open>
  A whole request served without another request in between. The step functions and the
  file system are parameters: \<open>exec n req w\<close> is the effect of step \<open>n\<close> on the world
  \<open>w\<close>, returning \<open>Inl message\<close> when it throws, and \<open>listing w pid\<close> is the listing of
  the project directory. The result names the step function that was called, if any.
\<close>

definition stepRequest ::
  "(nat \<Rightarrow> request \<Rightarrow> 'w \<Rightarrow> (string + unit) \<times> 'w) \<Rightarrow> ('w \<Rightarrow> string \<Rightarrow> string list option) \<Rightarrow>
   run_tracker \<times> 'w \<Rightarrow> request \<Rightarrow> response \<times> nat option \<times> run_tracker \<times> 'w" where
  "stepRequest exec listing state req =
     (let running = fst state; w = snd state; pid = projectId req
      in case enter running req of
           (Inl res, running') \<Rightarrow> (res, None, running', w)
         | (Inr RejectDescription, running') \<Rightarrow>
             (let (res, running'') = leave running' pid DescriptionMissing
              in (res, None, running'', w))
         | (Inr NoCase, running') \<Rightarrow>
             (let (res, running'') = leave running' pid (Completed (listing w pid))
              in (res, None, running'', w))
         | (Inr (CallStep n), running') \<Rightarrow>
             (case exec n req w of
                (Inl message, w') \<Rightarrow>
                  (let (res, running'') = leave running' pid (Thrown message)
                   in (res, Some n, running'', w'))
              | (Inr u, w') \<Rightarrow>
                  (let (res, running'') = leave running' pid (Completed (listing w' pid))
                   in (res, Some n, running'', w'))))"

text \<open>Whether the first part of the handler answered with the conflict status 409.\<close>

definition rejectedForConflict :: "(response + selected) \<Rightarrow> bool" where
  "rejectedForConflict r = (case r of Inl res \<Rightarrow> statusCode res = 409 | Inr sel \<Rightarrow> False)"

text \<open>The range check of the handler on the parsed path parameter.\<close>

definition outOfRange :: "string \<Rightarrow> bool" where
  "outOfRange param = (js_lt (parseInt param) 1 \<or> js_gt (parseInt param) 6)"

subsection \<open>Requests in flight\<close>

text \<open>
  The server between events. A handler that passed both guards is suspended until its
  step ends (for the steps that await a provider other requests are served meanwhile;
  a step that does not await ends in the same turn). The states the server can reach
  from its start: a request is turned away by one of the two early returns, a request
  is admitted and its handler suspended, or a suspended handler is resumed by the end of
  its step and leaves.
\<close>

record server =
  tracker :: run_tracker
  suspended :: "string list"

inductive reachable :: "server \<Rightarrow> bool" where
  initial: "reachable \<lparr>tracker = Map.empty, suspended = []\<rparr>"
| turned_away:
    "reachable s \<Longrightarrow> enter (tracker s) req = (Inl res, running') \<Longrightarrow>
     reachable (s\<lparr>tracker := running'\<rparr>)"
| admitted:
    "reachable s \<Longrightarrow> enter (tracker s) req = (Inr sel, running') \<Longrightarrow>
     reachable \<lparr>tracker = running', suspended = projectId req # suspended s\<rparr>"
| settled:
    "reachable s \<Longrightarrow> pid \<in> set (suspended s) \<Longrightarrow>
     leave (tracker s) pid oc = (res, running') \<Longrightarrow>
     reachable \<lparr>tracker = running', suspended = remove1 pid (suspended s)\<rparr>"

section \<open>JSON values and JSON.parse\<close>

text \<open>
  The strings inside parsed values are lists of UTF-16 code units (an escape
  \<^verbatim>\<open>\uXXXX\<close> can denote any of them); the texts that are parsed are strings of
  characters below 256, one code unit each. A number is kept as its exact decimal value
  \<open>m \<times> 10\<^sup>e\<close>.
\<close>

type_synonym jsstring = "nat list"

definition units :: "string \<Rightarrow> jsstring" where
  "units s = map of_char s"

datatype json =
    JNull
  | JBool bool
  | JNumber int int
  | JString jsstring
  | JArray "json list"
  | JObject "(jsstring \<times> json) list"

text \<open>
  \<^verbatim>\<open>JSON.parse\<close> is modelled in two passes over the JSON grammar of ECMAScript: the
  text is cut into tokens, and the tokens are read as one value.
\<close>

datatype token =
    LBrace | RBrace | LBracket | RBracket | Comma | Colon
  | TString jsstring | TNumber int int | TTrue | TFalse | TNull

text \<open>The white space of JSON: tab, line feed, carriage return and space.\<close>

definition isJsonWhiteSpace :: "char \<Rightarrow> bool" where
  "isJsonWhiteSpace c = (of_char c \<in> set [9, 10, 13, 32 :: nat])"

text \<open>The code unit of a one-character escape, the character after the backslash.\<close>

definition escapeUnit :: "char \<Rightarrow> nat option" where
  "escapeUnit e =
     (if e = CHR 0x22 then Some 0x22
      else if e = CHR ''/'' then Some 0x2F
      else if e = CHR 0x5C then Some 0x5C
      else if e = CHR ''b'' then Some 8
      else if e = CHR ''f'' then Some 12
      else if e = CHR ''n'' then Some 10
      else if e = CHR ''r'' then Some 13
      else if e = CHR ''t'' then Some 9
      else None)"

text \<open>Put one more item in front of what the rest of a scan gives, if it succeeds.\<close>

definition andThen :: "'a \<Rightarrow> ('a list \<times> 'b) option \<Rightarrow> ('a list \<times> 'b) option" where
  "andThen x r = (case r of None \<Rightarrow> None | Some (xs, rest) \<Rightarrow> Some (x # xs, rest))"

text \<open>
  A string token, from the character after the opening quote: the code units up to the
  closing quote and the text after it. A character below U+0020, an unknown escape and
  a missing closing quote are errors (\<open>None\<close>).
\<close>

fun lexString :: "string \<Rightarrow> (jsstring \<times> string) option"
  and lexEscape :: "string \<Rightarrow> (jsstring \<times> string) option" where
  "lexString [] = None"
| "lexString (c # cs) =
     (if c = CHR 0x22 then Some ([], cs)
      else if c = CHR 0x5C then lexEscape cs
      else if (of_char c :: nat) < 32 then None
      else andThen (of_char c) (lexString cs))"
| "lexEscape [] = None"
| "lexEscape (e # cs) =
     (if e = CHR ''u'' then
        (case cs of
           a # b # c # d # rest \<Rightarrow>
             if list_all (isRadixDigit 16) [a, b, c, d]
             then andThen (radixValue 16 [a, b, c, d]) (lexString rest)
             else None
         | _ \<Rightarrow> None)
      else case escapeUnit e of
             None \<Rightarrow> None
           | Some u \<Rightarrow> andThen u (lexString cs))"

lemma lexString_shorter:
  "lexString s = Some (v, rest) \<Longrightarrow> length rest < length s"
  "lexEscape s = Some (v, rest) \<Longrightarrow> length rest < length s"
  by (induction s and s arbitrary: v and v rule: lexString_lexEscape.induct)
     (auto simp: andThen_def split: if_splits option.splits list.splits, fastforce+)


text \<open>
  A number token: an optional minus sign, the integer part, an optional fraction and an
  optional exponent; its value is kept as mantissa and decimal exponent.
\<close>

text \<open>An optional minus sign.\<close>

definition lexSign :: "string \<Rightarrow> bool \<times> string" where
  "lexSign s = (if take 1 s = ''-'' then (True, drop 1 s) else (False, s))"

text \<open>The integer part: a single 0, or a run of digits that does not start with 0.\<close>

definition lexInteger :: "string \<Rightarrow> (string \<times> string) option" where
  "lexInteger s =
     (if take 1 s = ''0'' then Some (''0'', drop 1 s)
      else if takeWhile isDigit s = [] then None
      else Some (takeWhile isDigit s, dropWhile isDigit s))"

text \<open>The optional fraction: a dot and at least one digit.\<close>

definition lexFraction :: "string \<Rightarrow> (string \<times> string) option" where
  "lexFraction s =
     (if take 1 s = ''.'' then
        (if takeWhile isDigit (drop 1 s) = [] then None
         else Some (takeWhile isDigit (drop 1 s), dropWhile isDigit (drop 1 s)))
      else Some ([], s))"

text \<open>The optional exponent: e or E, an optional sign, and at least one digit.\<close>

definition lexExponent :: "string \<Rightarrow> (int \<times> string) option" where
  "lexExponent s =
     (if take 1 s = ''e'' \<or> take 1 s = ''E'' then
        (case (if take 1 (drop 1 s) = ''+'' then (False, drop 2 s) else lexSign (drop 1 s)) of
           (negative, s') \<Rightarrow>
             if takeWhile isDigit s' = [] then None
             else Some ((if negative then - 1 else 1) * int (radixValue 10 (takeWhile isDigit s')),
                        dropWhile isDigit s'))
      else Some (0, s))"

definition lexNumber :: "string \<Rightarrow> (token \<times> string) option" where
  "lexNumber s =
     (case lexSign s of
        (negative, s1) \<Rightarrow>
          (case lexInteger s1 of
             None \<Rightarrow> None
           | Some (intDigits, s2) \<Rightarrow>
               (case lexFraction s2 of
                  None \<Rightarrow> None
                | Some (fracDigits, s3) \<Rightarrow>
                    (case lexExponent s3 of
                       None \<Rightarrow> None
                     | Some (exponent, rest) \<Rightarrow>
                         Some (TNumber
                                 ((if negative then - 1 else 1)
                                    * int (radixValue 10 (intDigits @ fracDigits)))
                                 (exponent - int (length fracDigits)),
                               rest)))))"

lemma lexSign_length: "lexSign s = (b, r) \<Longrightarrow> length r \<le> length s"
  by (auto simp: lexSign_def split: if_splits)

lemma lexInteger_shorter: "lexInteger s = Some (d, r) \<Longrightarrow> length r < length s"
proof (cases s)
  case Nil
  then show "lexInteger s = Some (d, r) \<Longrightarrow> length r < length s"
    by (simp add: lexInteger_def)
next
  case (Cons c cs)
  assume "lexInteger s = Some (d, r)"
  with Cons show "length r < length s"
    using length_dropWhile_le [of isDigit cs]
    by (auto simp: lexInteger_def split: if_splits)
qed

lemma lexFraction_length: "lexFraction s = Some (d, r) \<Longrightarrow> length r \<le> length s"
  using length_dropWhile_le [of isDigit "drop 1 s"]
  by (auto simp: lexFraction_def split: if_splits)

lemma lexExponent_length: "lexExponent s = Some (e, r) \<Longrightarrow> length r \<le> length s"
  using length_dropWhile_le [of isDigit "drop 2 s"] length_dropWhile_le [of isDigit "drop 1 s"]
    length_dropWhile_le [of isDigit "drop 1 (drop 1 s)"]
  by (auto simp: lexExponent_def lexSign_def split: if_splits prod.splits)

lemma lexNumber_shorter:
  assumes "lexNumber s = Some (t, rest)"
  shows "length rest < length s"
proof -
  obtain negative s1 where sign: "lexSign s = (negative, s1)"
    by (cases "lexSign s")
  with assms obtain intDigits s2 where int: "lexInteger s1 = Some (intDigits, s2)"
    by (auto simp: lexNumber_def split: option.splits)
  with assms sign obtain fracDigits s3 where frac: "lexFraction s2 = Some (fracDigits, s3)"
    by (auto simp: lexNumber_def split: option.splits)
  with assms sign int obtain exponent where ex: "lexExponent s3 = Some (exponent, rest)"
    by (auto simp: lexNumber_def split: option.splits)
  show ?thesis
    using lexSign_length [OF sign] lexInteger_shorter [OF int] lexFraction_length [OF frac]
      lexExponent_length [OF ex]
    by linarith
qed

text \<open>The tokens of a text; \<open>None\<close> when some character starts no token.\<close>

definition consToken :: "token \<Rightarrow> token list option \<Rightarrow> token list option" where
  "consToken t r = (case r of None \<Rightarrow> None | Some ts \<Rightarrow> Some (t # ts))"

text \<open>One token at the head of the text (which does not start with white space).\<close>

definition lexToken :: "string \<Rightarrow> (token \<times> string) option" where
  "lexToken s =
     (if take 1 s = ''{'' then Some (LBrace, drop 1 s)
      else if take 1 s = ''}'' then Some (RBrace, drop 1 s)
      else if take 1 s = ''['' then Some (LBracket, drop 1 s)
      else if take 1 s = '']'' then Some (RBracket, drop 1 s)
      else if take 1 s = '','' then Some (Comma, drop 1 s)
      else if take 1 s = '':'' then Some (Colon, drop 1 s)
      else if take 1 s = [CHR 0x22] then
        (case lexString (drop 1 s) of
           None \<Rightarrow> None
         | Some (u, rest) \<Rightarrow> Some (TString u, rest))
      else if take 1 s = ''-'' \<or> list_ex isDigit (take 1 s) then lexNumber s
      else if take 4 s = ''true'' then Some (TTrue, drop 4 s)
      else if take 5 s = ''false'' then Some (TFalse, drop 5 s)
      else if take 4 s = ''null'' then Some (TNull, drop 4 s)
      else None)"

lemma lexToken_shorter:
  assumes "lexToken s = Some (t, rest)"
  shows "length rest < length s"
proof (cases s)
  case Nil
  with assms show ?thesis
    by (simp add: lexToken_def lexNumber_def lexSign_def lexInteger_def)
next
  case (Cons c cs)
  have str: "length r < length s" if "lexString (drop 1 s) = Some (u, r)" for u r
    using lexString_shorter(1) [OF that] Cons by simp
  show ?thesis
  proof (cases "take 1 s = [CHR 0x22]")
    case True
    with assms str show ?thesis
      by (auto simp: lexToken_def split: option.splits if_splits)
  next
    case False
    show ?thesis
    proof (cases "take 1 s = ''-'' \<or> list_ex isDigit (take 1 s)")
      case True
      with assms False have "lexNumber s = Some (t, rest) \<or> length rest < length s"
        using Cons by (auto simp: lexToken_def split: if_splits)
      then show ?thesis
        using lexNumber_shorter by blast
    next
      case no_number: False
      from assms False no_number Cons show ?thesis
        by (auto simp: lexToken_def split: if_splits)
    qed
  qed
qed

function tokenize :: "string \<Rightarrow> token list option" where
  "tokenize [] = Some []"
| "tokenize (c # cs) =
     (if isJsonWhiteSpace c then tokenize cs
      else case lexToken (c # cs) of
             None \<Rightarrow> None
           | Some (t, rest) \<Rightarrow> consToken t (tokenize rest))"
  by pat_completeness auto
termination
proof (relation "measure length")
  show "wf (measure length)"
    by simp
next
  fix c :: char and cs :: string
  show "(cs, c # cs) \<in> measure length"
    by simp
next
  fix c :: char and cs :: string and x2 :: "token \<times> string" and t :: token and rest :: string
  assume "lexToken (c # cs) = Some x2" and "(t, rest) = x2"
  then have "lexToken (c # cs) = Some (t, rest)"
    by simp
  then show "(rest, c # cs) \<in> measure length"
    using lexToken_shorter [of "c # cs" t rest] by simp
qed

text \<open>
  Reading the tokens as a value. The stack holds the arrays and objects that are open:
  for an array the elements read so far, for an object the members read so far and the
  key whose value is being read. \<open>parseValue\<close> expects a value at the head of the
  tokens; \<open>deliver\<close> hands a finished value to the innermost open array or object, or,
  when none is open, requires the tokens to be at their end.
\<close>

datatype frame = InArray "json list" | InObject "(jsstring \<times> json) list" jsstring

fun parseValue :: "frame list \<Rightarrow> token list \<Rightarrow> json option"
  and deliver :: "json \<Rightarrow> frame list \<Rightarrow> token list \<Rightarrow> json option" where
  "parseValue stack [] = None"
| "parseValue stack (t # ts) =
     (case t of
        TString s \<Rightarrow> deliver (JString s) stack ts
      | TNumber m e \<Rightarrow> deliver (JNumber m e) stack ts
      | TTrue \<Rightarrow> deliver (JBool True) stack ts
      | TFalse \<Rightarrow> deliver (JBool False) stack ts
      | TNull \<Rightarrow> deliver JNull stack ts
      | LBracket \<Rightarrow>
          (case ts of
             RBracket # ts' \<Rightarrow> deliver (JArray []) stack ts'
           | _ \<Rightarrow> parseValue (InArray [] # stack) ts)
      | LBrace \<Rightarrow>
          (case ts of
             RBrace # ts' \<Rightarrow> deliver (JObject []) stack ts'
           | TString k # Colon # ts' \<Rightarrow> parseValue (InObject [] k # stack) ts'
           | _ \<Rightarrow> None)
      | _ \<Rightarrow> None)"
| "deliver v [] ts = (if ts = [] then Some v else None)"
| "deliver v (InArray elems # stack) ts =
     (case ts of
        Comma # ts' \<Rightarrow> parseValue (InArray (elems @ [v]) # stack) ts'
      | RBracket # ts' \<Rightarrow> deliver (JArray (elems @ [v])) stack ts'
      | _ \<Rightarrow> None)"
| "deliver v (InObject members k # stack) ts =
     (case ts of
        Comma # TString k' # Colon # ts' \<Rightarrow>
          parseValue (InObject (members @ [(k, v)]) k' # stack) ts'
      | RBrace # ts' \<Rightarrow> deliver (JObject (members @ [(k, v)])) stack ts'
      | _ \<Rightarrow> None)"

text \<open>\<^verbatim>\<open>JSON.parse(text)\<close>; \<open>None\<close> when it throws a SyntaxError.\<close>

definition JSON_parse :: "string \<Rightarrow> json option" where
  "JSON_parse text = (case tokenize text of None \<Rightarrow> None | Some ts \<Rightarrow> parseValue [] ts)"



section \<open>Step 2: extracting and repairing the script (index.ts, step2)\<close>

text \<open>\<^verbatim>\<open>s.indexOf(c)\<close> and \<^verbatim>\<open>s.lastIndexOf(c)\<close>; \<open>None\<close> is the result -1.\<close>

fun indexOf :: "char \<Rightarrow> string \<Rightarrow> nat option" where
  "indexOf c [] = None"
| "indexOf c (x # xs) =
     (if x = c then Some 0 else case indexOf c xs of None \<Rightarrow> None | Some i \<Rightarrow> Some (Suc i))"

definition lastIndexOf :: "char \<Rightarrow> string \<Rightarrow> nat option" where
  "lastIndexOf c s =
     (case indexOf c (rev s) of None \<Rightarrow> None | Some k \<Rightarrow> Some (length s - 1 - k))"

text \<open>
  \<^verbatim>\<open>s.slice(start, end)\<close> for indices from 0 to the length of the string: the code
  units from start up to, not including, end; the empty string when end is not after
  start.
\<close>

definition slice :: "string \<Rightarrow> nat \<Rightarrow> nat \<Rightarrow> string" where
  "slice s start end = take (end - start) (drop start s)"

text \<open>
  \<^verbatim>\<open>jsonStr.replace(/,\s*([}\]])/g, "$1")\<close>. Scanning from the left: at a comma that
  is followed by white space (possibly none) and then a closing brace or bracket, the
  comma and the white space are dropped and the scan goes on after the closer; every
  other character is kept. (\<^verbatim>\<open>\s*\<close> is greedy and no white space is a closer, so
  backtracking finds no other match.)
\<close>

definition isCloser :: "char \<Rightarrow> bool" where
  "isCloser c = (c = CHR ''}'' \<or> c = CHR '']'')"

function stripTrailingCommas :: "string \<Rightarrow> string" where
  "stripTrailingCommas [] = []"
| "stripTrailingCommas (c # cs) =
     (if c = CHR '','' then
        (case dropWhile isStrWhiteSpace cs of
           [] \<Rightarrow> c # stripTrailingCommas cs
         | d # rest \<Rightarrow>
             if isCloser d then d # stripTrailingCommas rest
             else c # stripTrailingCommas cs)
      else c # stripTrailingCommas cs)"
  by pat_completeness auto
termination
proof (relation "measure length")
  fix c :: char and cs :: string and d :: char and rest :: string
  assume "dropWhile isStrWhiteSpace cs = d # rest"
  then have "length (d # rest) \<le> length cs"
    using length_dropWhile_le [of isStrWhiteSpace cs] by simp
  then show "(rest, c # cs) \<in> measure length"
    by simp
qed simp_all

text \<open>
  The second repair,
  \<^verbatim>\<open>jsonStr.replace(/(?<=: *")((?:[^"\\]|\\.)*)(?=")/g, (match) => ...)\<close>.

  The look-behind \<^verbatim>\<open>(?<=: *")\<close> holds at a position when the text before it ends
  with a colon, spaces (possibly none) and a double quote; \<open>passed\<close> is that text,
  reversed.
\<close>

definition afterColonQuote :: "string \<Rightarrow> bool" where
  "afterColonQuote passed =
     (case passed of
        [] \<Rightarrow> False
      | q # bs \<Rightarrow> q = CHR 0x22 \<and> take 1 (dropWhile (\<lambda>c. c = CHR '' '') bs) = '':'')"

text \<open>The line terminators, which \<^verbatim>\<open>.\<close> does not match, among the code units below 256.\<close>

definition isLineTerminator :: "char \<Rightarrow> bool" where
  "isLineTerminator c = (of_char c \<in> set [10, 13 :: nat])"

text \<open>
  The greedy run of \<^verbatim>\<open>(?:[^"\\]|\\.)*\<close> from the head of the text: characters other
  than the double quote and the backslash, and pairs of a backslash and a character
  that is no line terminator. The result is the run and the text after it.
\<close>

fun stringBody :: "string \<Rightarrow> string \<times> string" where
  "stringBody [] = ([], [])"
| "stringBody [c] = (if c = CHR 0x22 \<or> c = CHR 0x5C then ([], [c]) else ([c], []))"
| "stringBody (c # d # cs) =
     (if c = CHR 0x22 then ([], c # d # cs)
      else if c = CHR 0x5C then
        (if isLineTerminator d then ([], c # d # cs)
         else case stringBody cs of (m, r) \<Rightarrow> (c # d # m, r))
      else case stringBody (d # cs) of (m, r) \<Rightarrow> (c # m, r))"

lemma stringBody_append: "stringBody s = (m, r) \<Longrightarrow> m @ r = s"
  by (induction s arbitrary: m r rule: stringBody.induct) (auto split: if_splits prod.splits)

text \<open>
  The replacement function of the second repair:
  \<^verbatim>\<open>match.replace(/[\n\r\t]/g, (c) => c === "\n" ? "\\n" : c === "\r" ? "\\r" : "\\t")\<close>.
\<close>

definition escapeControl :: "char \<Rightarrow> string" where
  "escapeControl c =
     (if c = CHR 0x0A then [CHR 0x5C, CHR ''n'']
      else if c = CHR 0x0D then [CHR 0x5C, CHR ''r'']
      else if c = CHR 0x09 then [CHR 0x5C, CHR ''t'']
      else [c])"

definition escapeMatch :: "string \<Rightarrow> string" where
  "escapeMatch m = concat (map escapeControl m)"

text \<open>
  The global replace, scanning from the left with the text already passed (reversed) and
  the text ahead. At a position where the look-behind holds, the greedy run is a match
  exactly when a double quote follows it: each iteration of the group starts with a
  character that is no double quote, so giving back iterations never reaches one. A
  match that is not empty is replaced and the scan goes on at its end; after an empty
  match, and where there is no match, the scan moves one character on.
\<close>

function escapeControls :: "string \<Rightarrow> string \<Rightarrow> string" where
  "escapeControls passed [] = []"
| "escapeControls passed (c # cs) =
     (if afterColonQuote passed then
        (case stringBody (c # cs) of
           (m, r) \<Rightarrow>
             if take 1 r = [CHR 0x22] \<and> m \<noteq> []
             then escapeMatch m @ escapeControls (rev m @ passed) r
             else c # escapeControls (c # passed) cs)
      else c # escapeControls (c # passed) cs)"
  by pat_completeness auto
termination
  apply (relation "measure (\<lambda>(passed, s). length s)")
    apply simp_all
  using stringBody_append
  apply (metis length_append length_greater_0_conv less_add_same_cancel2 length_Cons)
  done

text \<open>The last resort, \<^verbatim>\<open>jsonStr.replace(/[\x00-\x1f]/g, " ")\<close>.\<close>

definition blankControls :: "string \<Rightarrow> string" where
  "blankControls s = map (\<lambda>c. if (of_char c :: nat) < 32 then CHR '' '' else c) s"


text \<open>What a step function throws.\<close>

datatype step_error =
    NoSuchFile string
  | ProviderError string
  | FailedToParseScript
  | JsonSyntaxError
  | TypeError
  | InvalidScript
  | KeyframeCount nat nat nat

text \<open>
  Lines 65 to 82 of step2: from the response of the text generation to the parsed
  script. The first \<^verbatim>\<open>JSON.parse\<close> is tried on the repaired text; when it throws, the
  control characters are blanked and the second \<^verbatim>\<open>JSON.parse\<close> decides.
\<close>

definition repair :: "string \<Rightarrow> string" where
  "repair jsonStr = escapeControls [] (stripTrailingCommas jsonStr)"

definition parseRepaired :: "string \<Rightarrow> step_error + json" where
  "parseRepaired jsonStr =
     (case JSON_parse jsonStr of
        Some script \<Rightarrow> Inr script
      | None \<Rightarrow>
          (case JSON_parse (blankControls jsonStr) of
             Some script \<Rightarrow> Inr script
           | None \<Rightarrow> Inl JsonSyntaxError))"

definition extractScript :: "string \<Rightarrow> step_error + json" where
  "extractScript raw =
     (case indexOf CHR ''{'' raw of
        None \<Rightarrow> Inl FailedToParseScript
      | Some start \<Rightarrow>
          (case lastIndexOf CHR ''}'' raw of
             None \<Rightarrow> Inl FailedToParseScript
           | Some end \<Rightarrow> parseRepaired (repair (slice raw start (end + 1)))))"

subsection \<open>Validation\<close>

text \<open>
  Reading a property of a value that is not null: the member of an object (the last
  one, when the text gave the key more than once), undefined (\<open>None\<close>) otherwise. The
  names read by the steps (segments, keyframes, mainCharacterDescription, script) are
  no properties of the prototypes of objects, arrays, strings, numbers or booleans.
\<close>

definition property :: "json \<Rightarrow> string \<Rightarrow> json option" where
  "property v name =
     (case v of JObject members \<Rightarrow> map_of (rev members) (units name) | _ \<Rightarrow> None)"

definition isArray :: "json option \<Rightarrow> bool" where
  "isArray v = (case v of Some (JArray elems) \<Rightarrow> True | _ \<Rightarrow> False)"

definition arrayLength :: "json option \<Rightarrow> nat" where
  "arrayLength v = (case v of Some (JArray elems) \<Rightarrow> length elems | _ \<Rightarrow> 0)"

text \<open>
  A number \<open>m \<times> 10\<^sup>e\<close> becomes the double 0 when its magnitude is at most \<open>2\<^sup>-\<^sup>1\<^sup>0\<^sup>7\<^sup>5\<close>,
  half of the least positive double (round to nearest, ties to even).
\<close>

definition isZeroNumber :: "int \<Rightarrow> int \<Rightarrow> bool" where
  "isZeroNumber m e = (m = 0 \<or> (e < 0 \<and> \<bar>m\<bar> * 2 ^ 1075 \<le> 10 ^ nat (- e)))"

text \<open>Truthiness: undefined, null, false, zero and the empty string are falsy.\<close>

definition truthy :: "json option \<Rightarrow> bool" where
  "truthy v =
     (case v of
        None \<Rightarrow> False
      | Some JNull \<Rightarrow> False
      | Some (JBool b) \<Rightarrow> b
      | Some (JNumber m e) \<Rightarrow> \<not> isZeroNumber m e
      | Some (JString s) \<Rightarrow> s \<noteq> []
      | Some (JArray elems) \<Rightarrow> True
      | Some (JObject members) \<Rightarrow> True)"

text \<open>
  Lines 84 to 90 of step2. Reading a property of null throws a TypeError. There is no
  check of the number of segments.
\<close>

definition validateScript :: "json \<Rightarrow> step_error + unit" where
  "validateScript script =
     (if script = JNull then Inl TypeError
      else if \<not> isArray (property script ''segments'') \<or> \<not> isArray (property script ''keyframes'')
              \<or> \<not> truthy (property script ''mainCharacterDescription'')
      then Inl InvalidScript
      else
        (let expected = arrayLength (property script ''segments'') + 1
         in if arrayLength (property script ''keyframes'') \<noteq> expected
            then Inl (KeyframeCount expected (arrayLength (property script ''segments''))
                        (arrayLength (property script ''keyframes'')))
            else Inr ()))"

subsection \<open>The project directory\<close>

text \<open>
  A project directory is a list of files, name and content. A content is text (or
  bytes, one character each), or \<open>Json v\<close>: the text \<^verbatim>\<open>JSON.stringify(v, null, 2)\<close>,
  which \<^verbatim>\<open>JSON.parse\<close> reads back as \<open>v\<close> (the round trip keeps arrays, strings and
  the properties of objects, which is all the steps read). A directory that does not
  exist is \<open>None\<close>.
\<close>

datatype content = Text string | Json json

type_synonym directory = "(string \<times> content) list"

text \<open>\<^verbatim>\<open>fs.writeFileSync(path.join(outDir, name), data)\<close>: replace the file or add it.\<close>

fun writeFile :: "directory \<Rightarrow> string \<Rightarrow> content \<Rightarrow> directory" where
  "writeFile [] name data = [(name, data)]"
| "writeFile ((n, d) # files) name data =
     (if n = name then (name, data) # files else (n, d) # writeFile files name data)"

definition readJSON :: "directory option \<Rightarrow> string \<Rightarrow> step_error + json" where
  "readJSON dir name =
     (case dir of
        None \<Rightarrow> Inl (NoSuchFile name)
      | Some files \<Rightarrow>
          (case map_of files name of
             None \<Rightarrow> Inl (NoSuchFile name)
           | Some (Json v) \<Rightarrow> Inr v
           | Some (Text t) \<Rightarrow>
               (case JSON_parse t of None \<Rightarrow> Inl JsonSyntaxError | Some v \<Rightarrow> Inr v)))"

text \<open>
  Lines 93 to 100 of step2, the logging after script.json is written. Printing the
  character and the keyframes throws nothing; the loop over the segments reads
  \<^verbatim>\<open>s.script\<close> of each segment, which throws a TypeError on a segment that is null.
\<close>

definition arrayElements :: "json option \<Rightarrow> json list" where
  "arrayElements v = (case v of Some (JArray elems) \<Rightarrow> elems | _ \<Rightarrow> [])"

definition logScript :: "json \<Rightarrow> step_error + unit" where
  "logScript script =
     (if list_ex (\<lambda>s. s = JNull) (arrayElements (property script ''segments''))
      then Inl TypeError
      else Inr ())"

text \<open>
  step2. \<open>llm\<close> is how the one call of the text generation ends: \<open>Inl message\<close> when
  it throws, \<open>Inr raw\<close> when it returns the text \<open>raw\<close>. The result is what step2
  throws, if anything, and the directory afterwards. An error of the extraction or of
  the validation is thrown before the write; an error of the logging is thrown after
  it, with script.json in the directory.
\<close>

definition step2 :: "directory option \<Rightarrow> string + string \<Rightarrow> (step_error + unit) \<times> directory option" where
  "step2 outDir llm =
     (case outDir of
        None \<Rightarrow> (Inl (NoSuchFile ''input.txt''), outDir)
      | Some files \<Rightarrow>
          (case map_of files ''input.txt'' of
             None \<Rightarrow> (Inl (NoSuchFile ''input.txt''), outDir)
           | Some input \<Rightarrow>
               (case llm of
                  Inl message \<Rightarrow> (Inl (ProviderError message), outDir)
                | Inr raw \<Rightarrow>
                    (case extractScript raw of
                       Inl err \<Rightarrow> (Inl err, outDir)
                     | Inr script \<Rightarrow>
                         (case validateScript script of
                            Inl err \<Rightarrow> (Inl err, outDir)
                          | Inr u \<Rightarrow>
                              (logScript script,
                               Some (writeFile files ''script.json'' (Json script))))))))"


section \<open>Step 5: the video segments (index.ts, step5)\<close>

text \<open>The decimal numeral of a number, as a template literal prints it.\<close>

fun decimal :: "nat \<Rightarrow> string" where
  "decimal n =
     (if n < 10 then [''0123456789'' ! n]
      else decimal (n div 10) @ [''0123456789'' ! (n mod 10)])"

declare decimal.simps [simp del]

definition segmentFileName :: "nat \<Rightarrow> string" where
  "segmentFileName i = ''segment'' @ decimal (i + 1) @ ''.mp4''"

text \<open>
  \<^verbatim>\<open>keyframeUrls[i]\<close> for a value that is not null: the element of an array, undefined
  (\<open>None\<close>) past its end; for the other values what JavaScript gives (the character
  of a string, the property of an object named by the numeral, undefined for a number
  or a boolean).
\<close>

definition element :: "json \<Rightarrow> nat \<Rightarrow> json option" where
  "element v i =
     (case v of
        JArray elems \<Rightarrow> (if i < length elems then Some (elems ! i) else None)
      | JString s \<Rightarrow> (if i < length s then Some (JString [s ! i]) else None)
      | JObject members \<Rightarrow> map_of (rev members) (units (decimal i))
      | _ \<Rightarrow> None)"

text \<open>The three arguments of one call of generateVideo.\<close>

record video_call =
  prompt :: "json option"
  firstFrame :: "json option"
  lastFrame :: "json option"

text \<open>
  The providers are parameters. \<open>generateVideo i call\<close> is how the call issued for
  segment index \<open>i\<close> ends and \<open>download url\<close> how fetching the result ends: \<open>Inl\<close>
  with the message when it throws, \<open>Inr\<close> with the URL or the bytes otherwise.
\<close>

type_synonym video_provider = "nat \<Rightarrow> video_call \<Rightarrow> string + string"
type_synonym downloader = "string \<Rightarrow> string + string"

text \<open>
  What one task of the fan-out does: the calls it issues (none or one), the files it
  writes (none or one) and the error it throws, if any.
\<close>

record task_result =
  issued :: "video_call list"
  stored :: "(string \<times> content) list"
  thrown :: "step_error option"

text \<open>
  The body of the function given to \<^verbatim>\<open>limit\<close> for segment index \<open>i\<close>. The
  arguments of generateVideo are evaluated first: reading a property of null throws
  before any call is issued.
\<close>

definition segmentTask ::
  "video_provider \<Rightarrow> downloader \<Rightarrow> json \<Rightarrow> nat \<Rightarrow> json \<Rightarrow> task_result" where
  "segmentTask generateVideo download keyframeUrls i segment =
     (if segment = JNull \<or> keyframeUrls = JNull
      then \<lparr>issued = [], stored = [], thrown = Some TypeError\<rparr>
      else
        (let call = \<lparr>prompt = property segment ''script'',
                     firstFrame = element keyframeUrls i,
                     lastFrame = element keyframeUrls (i + 1)\<rparr>
         in case generateVideo i call of
              Inl message \<Rightarrow>
                \<lparr>issued = [call], stored = [], thrown = Some (ProviderError message)\<rparr>
            | Inr videoUrl \<Rightarrow>
                (case download videoUrl of
                   Inl message \<Rightarrow>
                     \<lparr>issued = [call], stored = [], thrown = Some (ProviderError message)\<rparr>
                 | Inr bytes \<Rightarrow>
                     \<lparr>issued = [call], stored = [(segmentFileName i, Text bytes)],
                      thrown = None\<rparr>)))"

text \<open>
  What step5 does in all: the calls issued and the errors thrown by its tasks, in the
  order of the segments, and the directory when every task has ended. step5 itself
  resolves when \<open>errors\<close> is empty and otherwise rejects with one of them (the first in
  time). A rejection cancels nothing: the limiter starts a queued task whenever a running
  one ends, whichever way it ends, so every task runs as long as the process lives (the
  server goes on; cli.ts exits on the error). The tasks write files of different names,
  so the order in which they end does not matter to the directory.
\<close>

record step5_result =
  calls :: "video_call list"
  errors :: "step_error list"
  directoryAfter :: "directory option"

definition writeAll :: "directory \<Rightarrow> (string \<times> content) list \<Rightarrow> directory" where
  "writeAll files writes = foldl (\<lambda>fs w. writeFile fs (fst w) (snd w)) files writes"

definition step5 :: "video_provider \<Rightarrow> downloader \<Rightarrow> directory option \<Rightarrow> step5_result" where
  "step5 generateVideo download outDir =
     (case readJSON outDir ''script.json'' of
        Inl err \<Rightarrow> \<lparr>calls = [], errors = [err], directoryAfter = outDir\<rparr>
      | Inr script \<Rightarrow>
          (case readJSON outDir ''keyframes.json'' of
             Inl err \<Rightarrow> \<lparr>calls = [], errors = [err], directoryAfter = outDir\<rparr>
           | Inr keyframeUrls \<Rightarrow>
               (case property script ''segments'' of
                  Some (JArray segments) \<Rightarrow>
                    (let results = map (\<lambda>(i, segment).
                                      segmentTask generateVideo download keyframeUrls i segment)
                                    (enumerate 0 segments)
                     in \<lparr>calls = concat (map issued results),
                         errors = concat (map (\<lambda>r. case thrown r of None \<Rightarrow> [] | Some e \<Rightarrow> [e])
                                            results),
                         directoryAfter =
                           map_option (\<lambda>files. writeAll files (concat (map stored results)))
                             outDir\<rparr>)
                | _ \<Rightarrow> \<lparr>calls = [], errors = [TypeError], directoryAfter = outDir\<rparr>)))"

text \<open>
  The call the specification describes for segment index \<open>i\<close>, in its words: the
  script text of that segment, with the keyframe URLs at positions \<open>i\<close> and \<open>i + 1\<close>
  as first and last frame (undefined where the list has no such position). The results
  compare the calls of step5 with it.
\<close>

definition expectedCall :: "json list \<Rightarrow> json list \<Rightarrow> nat \<Rightarrow> video_call" where
  "expectedCall segments urls i =
     \<lparr>prompt = property (segments ! i) ''script'',
      firstFrame = (if i < length urls then Some (urls ! i) else None),
      lastFrame = (if i + 1 < length urls then Some (urls ! (i + 1)) else None)\<rparr>"

section \<open>Results on progress inference\<close>

lemma completedStepOf_mono:
  assumes "set files \<subseteq> set files'"
  shows "completedStepOf files \<le> completedStepOf files'"
proof -
  have member: "f \<in> set files'" if "f \<in> set files" for f
    using assms that by auto
  have keyframe: "list_ex isKeyframe files'" if "list_ex isKeyframe files"
    using assms that by (auto simp: list_ex_iff)
  have segment: "list_ex isSegment files'" if "list_ex isSegment files"
    using assms that by (auto simp: list_ex_iff)
  show ?thesis
    unfolding completedStepOf_def assignIf_def Let_def
    using member [of "''input.txt''"] member [of "''script.json''"]
      member [of "''character.jpg''"] member [of "''movie.mp4''"] member [of "''output.mp4''"]
      keyframe segment
    by auto
qed









text \<open>
  C3. Progress inference is monotonic in the presence of files: for every listing and
  every file name, the completedStep of the listing with that name added (at any
  position) is at least the completedStep of the listing without it.
\<close>

theorem detectStatus_monotonic:
  "completedStep (detectStatus (Some (xs @ ys)))
     \<le> completedStep (detectStatus (Some (xs @ f # ys)))"
proof -
  have "set (xs @ ys) \<subseteq> set (xs @ f # ys)"
    by auto
  then show ?thesis
    by (simp add: detectStatus_def completedStepOf_mono)
qed

text \<open>
  C10. For every directory listing that contains a file named output.mp4, detectStatus
  reports completedStep = 6, also when movie.mp4 is absent.
\<close>

theorem detectStatus_output_mp4:
  "''output.mp4'' \<in> set files \<Longrightarrow> completedStep (detectStatus (Some files)) = 6"
  by (simp add: detectStatus_def completedStepOf_def assignIf_def)

theorem detectStatus_output_mp4_witness:
  "''output.mp4'' \<in> set [''output.mp4''] \<and> ''movie.mp4'' \<notin> set [''output.mp4''] \<and>
   completedStep (detectStatus (Some [''output.mp4''])) = 6"
  using detectStatus_output_mp4 [of "[''output.mp4'']"] by simp

section \<open>Results on the step-run request handler\<close>

lemmas parseInt_eval =
  parseInt_def isRadixDigit_def digitValue_def isStrWhiteSpace_def radixValue_def

lemma enter_in_flight:
  assumes "running (projectId req) = Some current"
  shows "enter running req =
     (if outOfRange (stepNumParam req)
      then (Inl \<lparr>statusCode = 400, jsonBody = StepNumMustBe1to6\<rparr>, running)
      else (Inl \<lparr>statusCode = 409, jsonBody = AlreadyRunning current\<rparr>, running))"
  using assms by (simp add: enter_def outOfRange_def Let_def)

lemma leave_removes: "snd (leave running pid oc) pid = None"
  by (simp add: leave_def)

lemma enter_no_entry_no_conflict:
  "running (projectId req) = None \<Longrightarrow> \<not> rejectedForConflict (fst (enter running req))"
  by (simp add: enter_def rejectedForConflict_def Let_def)

lemma enter_Inl: "enter running req = (Inl res, running') \<Longrightarrow> running' = running"
  by (auto simp: enter_def Let_def split: if_splits option.splits)

lemma enter_Inr:
  "enter running req = (Inr sel, running') \<Longrightarrow>
   running (projectId req) = None \<and> (\<exists>n. running' = running(projectId req \<mapsto> n))"
  by (auto simp: enter_def Let_def split: if_splits option.splits)

lemma leave_tracker: "leave running pid oc = (res, running') \<Longrightarrow> running' = running(pid := None)"
  by (auto simp: leave_def Let_def)

text \<open>
  In every state the server can reach, the projects with an entry in the run tracker
  are exactly the projects with a handler in flight, and no project has two: at most one
  step runs per project.
\<close>

lemma single_flight:
  "reachable s \<Longrightarrow> distinct (suspended s) \<and> set (suspended s) = dom (tracker s)"
proof (induction rule: reachable.induct)
  case initial
  show ?case by simp
next
  case (turned_away s req res running')
  then show ?case
    using enter_Inl [of "tracker s" req res running'] by simp
next
  case (admitted s req sel running')
  then show ?case
    using enter_Inr [of "tracker s" req sel running'] by (auto simp: domIff)
next
  case (settled s pid oc res running')
  then show ?case
    using leave_tracker [of "tracker s" pid oc res running']
    by (auto split: if_splits)
qed

text \<open>
  C4, as stated, fails: with step 2 in flight for project p, a second request for p with
  stepNum 7 is answered 400, not 409.
\<close>

theorem second_request_status_counterexample:
  "fst (enter [''p'' \<mapsto> Num 2] \<lparr>projectId = ''p'', stepNumParam = ''7'', description = None\<rparr>)
     = Inl \<lparr>statusCode = 400, jsonBody = StepNumMustBe1to6\<rparr>"
  by (simp add: enter_def js_lt_def js_gt_def parseInt_eval)

text \<open>
  C4, amended. For every project id, while the run tracker has an entry for it, every
  further step-run request for that id is rejected at once and runs no step: with
  status 400 when the parsed stepNum is below 1 or above 6 (that check comes first),
  and with status 409 otherwise. The tracker and the project files are as before: the
  request is not queued.
\<close>

theorem second_request_rejected:
  assumes "running (projectId req) = Some current"
  shows "stepRequest exec listing (running, w) req =
     (if outOfRange (stepNumParam req)
      then \<lparr>statusCode = 400, jsonBody = StepNumMustBe1to6\<rparr>
      else \<lparr>statusCode = 409, jsonBody = AlreadyRunning current\<rparr>,
      None, running, w)"
  using assms enter_in_flight [of running req current] by (simp add: stepRequest_def)

theorem second_request_rejected_witness:
  "[''p'' \<mapsto> Num 2] (projectId \<lparr>projectId = ''p'', stepNumParam = ''3'', description = None\<rparr>)
     = Some (Num 2) \<and>
   \<not> outOfRange ''3'' \<and>
   stepRequest (\<lambda>n r w. (Inr (), w)) (\<lambda>w p. None) ([''p'' \<mapsto> Num 2], ())
       \<lparr>projectId = ''p'', stepNumParam = ''3'', description = None\<rparr>
     = (\<lparr>statusCode = 409, jsonBody = AlreadyRunning (Num 2)\<rparr>, None, [''p'' \<mapsto> Num 2], ())"
proof -
  have range: "\<not> outOfRange ''3''"
    by (simp add: outOfRange_def js_lt_def js_gt_def parseInt_eval)
  have entry: "[''p'' \<mapsto> Num 2]
      (projectId \<lparr>projectId = ''p'', stepNumParam = ''3'', description = None\<rparr>) = Some (Num 2)"
    by simp
  show ?thesis
    using entry range
      second_request_rejected [of "[''p'' \<mapsto> Num 2]"
        "\<lparr>projectId = ''p'', stepNumParam = ''3'', description = None\<rparr>" "Num 2"
        "\<lambda>n r w. (Inr (), w)" "\<lambda>w p. None" "()"]
    by simp
qed

text \<open>
  C5. For every project id and every way the step execution ends (the step returned,
  it threw, or the description check of step 1 failed), the handler removes the run
  tracker's entry for that id before it completes, so that a following step request for
  the project is not rejected for conflict. For a whole request: if the tracker had no
  entry for the project when the request arrived, it has none when the request is done,
  whatever the step did.
\<close>

theorem tracker_entry_removed:
  "snd (leave running pid oc) pid = None \<and>
   \<not> rejectedForConflict
       (fst (enter (snd (leave running pid oc))
               \<lparr>projectId = pid, stepNumParam = param, description = d\<rparr>)) \<and>
   (running (projectId req) = None \<longrightarrow>
      fst (snd (snd (stepRequest exec listing (running, w) req))) (projectId req) = None)"
proof -
  have a: "snd (leave running pid oc) pid = None"
    by (rule leave_removes)
  have b: "\<not> rejectedForConflict
       (fst (enter (snd (leave running pid oc))
               \<lparr>projectId = pid, stepNumParam = param, description = d\<rparr>))"
    by (rule enter_no_entry_no_conflict) (simp add: leave_removes)
  have c: "fst (snd (snd (stepRequest exec listing (running, w) req))) (projectId req) = None"
    if "running (projectId req) = None"
    using that
    by (auto simp: stepRequest_def enter_def leave_def Let_def
        split: sum.splits selected.splits prod.splits)
  from a b c show ?thesis by blast
qed

theorem tracker_entry_removed_witness:
  "Map.empty (projectId \<lparr>projectId = ''p'', stepNumParam = ''2'', description = None\<rparr>)
     = (None :: jsnum option) \<and>
   stepRequest (\<lambda>n r w. (Inl ''provider error'', w)) (\<lambda>w p. None) (Map.empty, ())
       \<lparr>projectId = ''p'', stepNumParam = ''2'', description = None\<rparr>
     = (\<lparr>statusCode = 500, jsonBody = StepError ''provider error''\<rparr>, Some 2,
        Map.empty (''p'' := None), ()) \<and>
   fst (snd (snd (stepRequest (\<lambda>n r w. (Inl ''provider error'', w)) (\<lambda>w p. None)
       (Map.empty, ()) \<lparr>projectId = ''p'', stepNumParam = ''2'', description = None\<rparr>))) ''p''
     = None"
proof -
  have run: "stepRequest (\<lambda>n r w. (Inl ''provider error'', w)) (\<lambda>w p. None) (Map.empty, ())
       \<lparr>projectId = ''p'', stepNumParam = ''2'', description = None\<rparr>
     = (\<lparr>statusCode = 500, jsonBody = StepError ''provider error''\<rparr>, Some 2,
        Map.empty (''p'' := None), ())"
    by (simp add: stepRequest_def enter_def leave_def selectStep_def js_lt_def js_gt_def
        parseInt_eval)
  show ?thesis
    using run
      tracker_entry_removed [of Map.empty "''p''" "Thrown ''provider error''" "''2''" None
        "\<lparr>projectId = ''p'', stepNumParam = ''2'', description = None\<rparr>"
        "\<lambda>n r w. (Inl ''provider error'', w)" "\<lambda>w p. None" "()"]
    by simp
qed

text \<open>
  C6 fails on the code. A stepNum that is no number, such as abc, parses to NaN, which
  is neither below 1 nor above 6: when nothing is running for the project the request
  passes both guards, no case of the switch is selected, and the handler answers 200
  with the project status instead of 400. A stepNum such as 2.5, which denotes no
  integer, parses to 2 and runs step 2.
\<close>

theorem non_numeric_stepNum_answered_200:
  "stepRequest exec listing (Map.empty, w)
       \<lparr>projectId = ''p'', stepNumParam = ''abc'', description = None\<rparr>
     = (\<lparr>statusCode = 200, jsonBody = Status ''p'' (detectStatus (listing w ''p''))\<rparr>,
        None, Map.empty, w) \<and>
   fst (snd (stepRequest (\<lambda>n r w. (Inr (), w)) listing (Map.empty, w)
       \<lparr>projectId = ''p'', stepNumParam = ''2.5'', description = None\<rparr>)) = Some 2"
  by (simp add: stepRequest_def enter_def leave_def selectStep_def js_lt_def js_gt_def
      parseInt_eval Let_def)

section \<open>Results on step 5\<close>

lemma digitValue_digits: "map digitValue ''0123456789'' = [0..<10]"
  by (simp add: digitValue_def upt_rec)

lemma digitValue_digit:
  assumes "k < 10"
  shows "digitValue (''0123456789'' ! k) = k"
proof -
  have "digitValue (''0123456789'' ! k) = map digitValue ''0123456789'' ! k"
    using assms by (subst nth_map) simp_all
  also have "\<dots> = k"
    using assms by (simp only: digitValue_digits nth_upt)
  finally show ?thesis .
qed

lemma radixValue_snoc: "radixValue R (ds @ [d]) = radixValue R ds * R + digitValue d"
  by (simp add: radixValue_def)

lemma radixValue_decimal: "radixValue 10 (decimal n) = n"
proof (induction n rule: decimal.induct)
  case (1 n)
  show ?case
  proof (cases "n < 10")
    case True
    then show ?thesis
      by (subst decimal.simps) (simp add: radixValue_def digitValue_digit)
  next
    case False
    then have "radixValue 10 (decimal (n div 10)) = n div 10"
      using "1.IH" by simp
    with False show ?thesis
      by (subst decimal.simps) (simp add: radixValue_snoc digitValue_digit)
  qed
qed

lemma decimal_inject: "decimal m = decimal n \<Longrightarrow> m = n"
  by (metis radixValue_decimal)

lemma segmentFileName_inject: "segmentFileName i = segmentFileName j \<Longrightarrow> i = j"
  by (auto simp: segmentFileName_def dest: decimal_inject)

lemma map_of_writeFile:
  "map_of (writeFile files name d) n = (if n = name then Some d else map_of files n)"
  by (induction files name d rule: writeFile.induct) auto

lemma map_of_writeAll:
  "map_of (writeAll files ws) n =
     (case map_of (rev ws) n of Some d \<Rightarrow> Some d | None \<Rightarrow> map_of files n)"
  unfolding writeAll_def
  by (induction ws arbitrary: files rule: rev_induct) (auto simp: map_of_writeFile split: option.splits)

lemma map_of_unique:
  assumes "(n, d) \<in> set xs" and "\<And>d'. (n, d') \<in> set xs \<Longrightarrow> d' = d"
  shows "map_of xs n = Some d"
  using assms
proof (induction xs)
  case Nil
  from Nil.prems(1) show ?case by simp
next
  case (Cons x xs)
  obtain n' d' where x: "x = (n', d')"
    by (cases x)
  show ?case
  proof (cases "n' = n")
    case True
    then have "d' = d"
      using Cons.prems(2) [of d'] x by simp
    with True x show ?thesis by simp
  next
    case False
    with Cons.prems(1) x have "(n, d) \<in> set xs"
      by auto
    moreover have "e = d" if "(n, e) \<in> set xs" for e
      using Cons.prems(2) [of e] that by simp
    ultimately have "map_of xs n = Some d"
      by (rule Cons.IH)
    with False x show ?thesis by simp
  qed
qed

lemma map_enumerate:
  "map f (enumerate 0 xs) = map (\<lambda>i. f (i, xs ! i)) [0..<length xs]"
  by (rule nth_equalityI) (simp_all add: nth_enumerate_eq)


lemma expectedCall_element:
  "\<lparr>prompt = property (segments ! i) ''script'', firstFrame = element (JArray urls) i,
    lastFrame = element (JArray urls) (Suc i)\<rparr> = expectedCall segments urls i"
  by (simp add: expectedCall_def element_def)

lemma segmentTask_issued:
  assumes "segment \<noteq> JNull" and "keyframeUrls \<noteq> JNull"
  shows "issued (segmentTask gen dl keyframeUrls i segment) =
     [\<lparr>prompt = property segment ''script'', firstFrame = element keyframeUrls i,
       lastFrame = element keyframeUrls (i + 1)\<rparr>]"
  using assms by (simp add: segmentTask_def Let_def split: sum.splits)

lemma segmentTask_stored_name:
  "(n, d) \<in> set (stored (segmentTask gen dl keyframeUrls i segment)) \<Longrightarrow> n = segmentFileName i"
  by (auto simp: segmentTask_def Let_def split: if_splits sum.splits)

lemma segmentTask_stored:
  assumes "segment \<noteq> JNull" and "keyframeUrls \<noteq> JNull"
    and "gen i \<lparr>prompt = property segment ''script'', firstFrame = element keyframeUrls i,
       lastFrame = element keyframeUrls (i + 1)\<rparr> = Inr videoUrl"
    and "dl videoUrl = Inr bytes"
  shows "stored (segmentTask gen dl keyframeUrls i segment) = [(segmentFileName i, Text bytes)]"
  using assms by (simp add: segmentTask_def Let_def)

text \<open>
  C8. For every script with N segments, each of them a record (not null), and every
  keyframe URL list, step 5 issues exactly one video-generation call per segment, in
  all N calls: the call for segment index i (from 0) has that segment's script text as
  prompt and the keyframe URLs at positions i and i+1 as first and last frame
  (undefined where the list is too short). Where that call and the download succeed,
  the downloaded bytes are in the directory as segment{i+1}.mp4 when the step is done.
\<close>

theorem step5_calls_and_files:
  assumes script: "readJSON outDir ''script.json'' = Inr script"
    and keyframes: "readJSON outDir ''keyframes.json'' = Inr (JArray urls)"
    and segs: "property script ''segments'' = Some (JArray segments)"
    and records: "JNull \<notin> set segments"
  shows "calls (step5 gen dl outDir) = map (expectedCall segments urls) [0..<length segments] \<and>
     (\<forall>i videoUrl bytes.
        i < length segments \<and> gen i (expectedCall segments urls i) = Inr videoUrl \<and>
        dl videoUrl = Inr bytes \<longrightarrow>
        (\<exists>files. directoryAfter (step5 gen dl outDir) = Some files \<and>
           map_of files (segmentFileName i) = Some (Text bytes)))"
proof -
  define task where "task i = segmentTask gen dl (JArray urls) i (segments ! i)" for i
  define results where "results = map task [0..<length segments]"
  define writes where "writes = concat (map stored results)"
  obtain files0 where dir: "outDir = Some files0"
    using script by (cases outDir) (simp_all add: readJSON_def)
  have results: "map (\<lambda>(i, segment). segmentTask gen dl (JArray urls) i segment)
      (enumerate 0 segments) = results"
    unfolding results_def task_def by (simp add: map_enumerate)
  have run: "step5 gen dl outDir =
      \<lparr>calls = concat (map issued results),
       errors = concat (map (\<lambda>r. case thrown r of None \<Rightarrow> [] | Some e \<Rightarrow> [e]) results),
       directoryAfter = Some (writeAll files0 writes)\<rparr>"
    using script keyframes segs results dir
    by (simp add: step5_def writes_def Let_def)
  have present: "segments ! i \<noteq> JNull" if "i < length segments" for i
    using records that by (metis nth_mem)
  have "map issued results = map (\<lambda>i. [expectedCall segments urls i]) [0..<length segments]"
    unfolding results_def task_def
    by (simp add: segmentTask_issued present expectedCall_element)
  then have calls: "concat (map issued results) = map (expectedCall segments urls) [0..<length segments]"
    by simp
  have written: "map_of (writeAll files0 writes) (segmentFileName i) = Some (Text bytes)"
    if i: "i < length segments" and g: "gen i (expectedCall segments urls i) = Inr videoUrl"
      and d: "dl videoUrl = Inr bytes" for i videoUrl bytes
  proof -
    have mine: "stored (task i) = [(segmentFileName i, Text bytes)]"
      unfolding task_def
      using segmentTask_stored [of "segments ! i" "JArray urls" gen i videoUrl dl bytes]
        present [OF i] g d
      by (simp add: expectedCall_element)
    have "task i \<in> set results"
      unfolding results_def using i by simp
    with mine have member: "(segmentFileName i, Text bytes) \<in> set (rev writes)"
      unfolding writes_def by force
    have only: "e = Text bytes" if "(segmentFileName i, e) \<in> set (rev writes)" for e
    proof -
      from that obtain j where j: "j < length segments"
        and e: "(segmentFileName i, e) \<in> set (stored (task j))"
        unfolding writes_def results_def by auto
      from e have "segmentFileName i = segmentFileName j"
        unfolding task_def by (rule segmentTask_stored_name)
      then have "j = i"
        using segmentFileName_inject by simp
      with e mine show ?thesis by simp
    qed
    have "map_of (rev writes) (segmentFileName i) = Some (Text bytes)"
      using member only by (rule map_of_unique)
    then show ?thesis
      by (simp add: map_of_writeAll)
  qed
  show ?thesis
    using calls written by (simp add: run)
qed

theorem step5_calls_and_files_witness:
  "readJSON (Some [(''script.json'', Json (JObject [(units ''segments'',
        JArray [JObject [(units ''script'', JString (units ''walk''))],
                JObject [(units ''script'', JString (units ''run''))]])])),
      (''keyframes.json'', Json (JArray [JString (units ''u0''), JString (units ''u1''),
        JString (units ''u2'')]))]) ''script.json''
     = Inr (JObject [(units ''segments'',
        JArray [JObject [(units ''script'', JString (units ''walk''))],
                JObject [(units ''script'', JString (units ''run''))]])]) \<and>
   calls (step5 (\<lambda>i c. Inr ''video'') (\<lambda>u. Inr ''bytes'')
     (Some [(''script.json'', Json (JObject [(units ''segments'',
        JArray [JObject [(units ''script'', JString (units ''walk''))],
                JObject [(units ''script'', JString (units ''run''))]])])),
      (''keyframes.json'', Json (JArray [JString (units ''u0''), JString (units ''u1''),
        JString (units ''u2'')]))]))
     = [\<lparr>prompt = Some (JString (units ''walk'')), firstFrame = Some (JString (units ''u0'')),
         lastFrame = Some (JString (units ''u1''))\<rparr>,
        \<lparr>prompt = Some (JString (units ''run'')), firstFrame = Some (JString (units ''u1'')),
         lastFrame = Some (JString (units ''u2''))\<rparr>] \<and>
   (\<exists>files. directoryAfter (step5 (\<lambda>i c. Inr ''video'') (\<lambda>u. Inr ''bytes'')
     (Some [(''script.json'', Json (JObject [(units ''segments'',
        JArray [JObject [(units ''script'', JString (units ''walk''))],
                JObject [(units ''script'', JString (units ''run''))]])])),
      (''keyframes.json'', Json (JArray [JString (units ''u0''), JString (units ''u1''),
        JString (units ''u2'')]))])) = Some files \<and>
      map_of files ''segment2.mp4'' = Some (Text ''bytes''))"
proof -
  define segments where "segments =
    [JObject [(units ''script'', JString (units ''walk''))],
     JObject [(units ''script'', JString (units ''run''))]]"
  define script where "script = JObject [(units ''segments'', JArray segments)]"
  define urls where "urls = [JString (units ''u0''), JString (units ''u1''), JString (units ''u2'')]"
  define outDir where "outDir =
    Some [(''script.json'', Json script), (''keyframes.json'', Json (JArray urls))]"
  have a: "readJSON outDir ''script.json'' = Inr script"
    by (simp add: readJSON_def outDir_def)
  have b: "readJSON outDir ''keyframes.json'' = Inr (JArray urls)"
    by (simp add: readJSON_def outDir_def)
  have c: "property script ''segments'' = Some (JArray segments)"
    by (simp add: property_def script_def)
  have d: "JNull \<notin> set segments"
    by (simp add: segments_def)
  have name: "segmentFileName 1 = ''segment2.mp4''"
    by (simp add: segmentFileName_def decimal.simps)
  have call: "map (expectedCall segments urls) [0..<length segments] =
      [\<lparr>prompt = Some (JString (units ''walk'')), firstFrame = Some (JString (units ''u0'')),
         lastFrame = Some (JString (units ''u1''))\<rparr>,
        \<lparr>prompt = Some (JString (units ''run'')), firstFrame = Some (JString (units ''u1'')),
         lastFrame = Some (JString (units ''u2''))\<rparr>]"
    by (simp add: expectedCall_def segments_def urls_def property_def upt_rec)
  have "1 < length segments"
    by (simp add: segments_def)
  then show ?thesis
    using step5_calls_and_files [OF a b c d, of "\<lambda>i c. Inr ''video''" "\<lambda>u. Inr ''bytes''"]
      a call name
    unfolding outDir_def script_def segments_def urls_def
    by fastforce
qed

section \<open>Results on step 2\<close>

lemmas json_eval = JSON_parse_def isJsonWhiteSpace_def lexToken_def isDigit_def andThen_def
  consToken_def units_def lexNumber_def lexSign_def lexInteger_def lexFraction_def lexExponent_def
  radixValue_def digitValue_def isRadixDigit_def escapeUnit_def

lemmas repair_eval = extractScript_def repair_def parseRepaired_def slice_def lastIndexOf_def
  isCloser_def isStrWhiteSpace_def afterColonQuote_def isLineTerminator_def escapeMatch_def
  escapeControl_def blankControls_def

lemmas validate_eval = validateScript_def property_def isArray_def arrayLength_def truthy_def
  isZeroNumber_def logScript_def arrayElements_def

lemma step2_throws_before_write:
  "step2 outDir llm = (Inl err, dir) \<Longrightarrow> err \<noteq> TypeError \<Longrightarrow> dir = outDir"
  by (auto simp: step2_def logScript_def split: option.splits sum.splits if_splits)

text \<open>
  A script with a null segment passes the validation, is written, and then makes the
  logging throw: step2 fails with script.json in the directory.
\<close>

lemma step2_logging_throws_after_write:
  \<open>step2 (Some [(''input.txt'', Text ''a fox'')])
     (Inr ''{"mainCharacterDescription":"a fox","keyframes":["dawn","dusk"],"segments":[null]}'')
   = (Inl TypeError,
      Some [(''input.txt'', Text ''a fox''),
            (''script.json'',
             Json (JObject
               [(units ''mainCharacterDescription'', JString (units ''a fox'')),
                (units ''keyframes'', JArray [JString (units ''dawn''), JString (units ''dusk'')]),
                (units ''segments'', JArray [JNull])]))])\<close>
  by (simp add: step2_def validate_eval json_eval repair_eval)

lemma validateScript_mismatch:
  assumes "property script ''segments'' = Some (JArray segments)"
    and "property script ''keyframes'' = Some (JArray keyframes)"
    and "length keyframes \<noteq> length segments + 1"
  shows "\<exists>err. validateScript script = Inl err"
  using assms by (auto simp: validateScript_def isArray_def arrayLength_def Let_def)

text \<open>
  C1, as stated, fails: a response whose script has one segment and two keyframes (a
  number of segments outside 3 to 6) passes the validation, and step 2 writes
  script.json.
\<close>

theorem step2_accepts_one_segment_counterexample:
  \<open>step2 (Some [(''input.txt'', Text ''a fox'')])
     (Inr ''{"mainCharacterDescription":"a fox","keyframes":["dawn","dusk"],"segments":[{"script":"the fox runs"}]}'')
   = (Inr (),
      Some [(''input.txt'', Text ''a fox''),
            (''script.json'',
             Json (JObject
               [(units ''mainCharacterDescription'', JString (units ''a fox'')),
                (units ''keyframes'', JArray [JString (units ''dawn''), JString (units ''dusk'')]),
                (units ''segments'',
                 JArray [JObject [(units ''script'', JString (units ''the fox runs''))]])]))])\<close>
  by (simp add: step2_def validate_eval json_eval repair_eval)

text \<open>
  C1, amended. For every generated payload in which segments and keyframes are arrays
  with keyframes.length \<noteq> segments.length + 1, step 2 throws an error and does not write
  script.json: the project directory is as it was. (The number of segments is not
  checked.)
\<close>

theorem step2_rejects_keyframe_mismatch:
  assumes "extractScript raw = Inr script"
    and "property script ''segments'' = Some (JArray segments)"
    and "property script ''keyframes'' = Some (JArray keyframes)"
    and "length keyframes \<noteq> length segments + 1"
  shows "\<exists>err. step2 outDir (Inr raw) = (Inl err, outDir)"
proof -
  obtain err where "validateScript script = Inl err"
    using validateScript_mismatch [OF assms(2-4)] by blast
  with assms(1) show ?thesis
    by (auto simp: step2_def split: option.splits)
qed

theorem step2_rejects_keyframe_mismatch_witness:
  \<open>extractScript ''{"mainCharacterDescription":"a fox","keyframes":["k0","k1","k2"],"segments":[{"script":"s1"},{"script":"s2"},{"script":"s3"}]}''
     = Inr (JObject
         [(units ''mainCharacterDescription'', JString (units ''a fox'')),
          (units ''keyframes'', JArray [JString (units ''k0''), JString (units ''k1''), JString (units ''k2'')]),
          (units ''segments'',
           JArray [JObject [(units ''script'', JString (units ''s1''))],
                   JObject [(units ''script'', JString (units ''s2''))],
                   JObject [(units ''script'', JString (units ''s3''))]])]) \<and>
   (\<exists>err. step2 (Some [(''input.txt'', Text ''a fox'')])
      (Inr ''{"mainCharacterDescription":"a fox","keyframes":["k0","k1","k2"],"segments":[{"script":"s1"},{"script":"s2"},{"script":"s3"}]}'')
     = (Inl err, Some [(''input.txt'', Text ''a fox'')]))\<close>
proof -
  define script where "script = JObject
         [(units ''mainCharacterDescription'', JString (units ''a fox'')),
          (units ''keyframes'', JArray [JString (units ''k0''), JString (units ''k1''), JString (units ''k2'')]),
          (units ''segments'',
           JArray [JObject [(units ''script'', JString (units ''s1''))],
                   JObject [(units ''script'', JString (units ''s2''))],
                   JObject [(units ''script'', JString (units ''s3''))]])]"
  have a: \<open>extractScript ''{"mainCharacterDescription":"a fox","keyframes":["k0","k1","k2"],"segments":[{"script":"s1"},{"script":"s2"},{"script":"s3"}]}'' = Inr script\<close>
    unfolding script_def by (simp add: json_eval repair_eval)
  have b: "property script ''segments'' = Some (JArray
      [JObject [(units ''script'', JString (units ''s1''))],
       JObject [(units ''script'', JString (units ''s2''))],
       JObject [(units ''script'', JString (units ''s3''))]])"
    by (simp add: script_def property_def units_def)
  have c: "property script ''keyframes'' =
      Some (JArray [JString (units ''k0''), JString (units ''k1''), JString (units ''k2'')])"
    by (simp add: script_def property_def units_def)
  show ?thesis
    using step2_rejects_keyframe_mismatch [OF a b c, of "Some [(''input.txt'', Text ''a fox'')]"] a
    unfolding script_def by simp
qed

lemma indexOf_first: "c \<notin> set pre \<Longrightarrow> indexOf c (pre @ c # rest) = Some (length pre)"
  by (induction pre) auto

lemma lastIndexOf_last:
  assumes "c \<notin> set post"
  shows "lastIndexOf c (xs @ c # post) = Some (length xs)"
proof -
  have "indexOf c (rev (xs @ c # post)) = Some (length post)"
    using indexOf_first [of c "rev post" "rev xs"] assms by simp
  then show ?thesis
    by (simp add: lastIndexOf_def)
qed

lemma slice_middle: "slice (pre @ mid @ post) (length pre) (length pre + length mid) = mid"
  by (simp add: slice_def)

lemma closer_not_space: "isCloser c \<Longrightarrow> \<not> isStrWhiteSpace c"
  by (auto simp: isCloser_def isStrWhiteSpace_def)

lemma closer_not_comma: "isCloser c \<Longrightarrow> c \<noteq> CHR '',''"
  by (auto simp: isCloser_def)

lemma comma_not_space: "\<not> isStrWhiteSpace CHR '',''"
  by (simp add: isStrWhiteSpace_def)

lemma closer_ahead:
  assumes "dropWhile isStrWhiteSpace (a @ CHR '','' # r1) = d # rest" and "isCloser d"
  shows "\<exists>rest'. dropWhile isStrWhiteSpace (a @ r2) = d # rest'"
  using assms
proof (induction a)
  case Nil
  then show ?case
    using comma_not_space closer_not_comma by auto
next
  case (Cons x a)
  then show ?case
    by (cases "isStrWhiteSpace x") auto
qed

lemma strip_inserted_comma:
  assumes c: "isCloser c" and ws: "list_all isStrWhiteSpace ws"
    and fixed: "stripTrailingCommas (a @ c # b) = a @ c # b"
  shows "stripTrailingCommas (a @ CHR '','' # ws @ c # b) = a @ c # b"
  using fixed
proof (induction a)
  case Nil
  have "dropWhile isStrWhiteSpace (ws @ c # b) = c # b"
    using ws closer_not_space [OF c] by (simp add: list_all_iff)
  moreover have "stripTrailingCommas b = b"
    using Nil closer_not_comma [OF c] by simp
  ultimately show ?case
    using c by simp
next
  case (Cons x a)
  show ?case
  proof (cases "x = CHR '',''")
    case False
    with Cons show ?thesis by simp
  next
    case True
    have no_match: "\<not> isCloser d" if "dropWhile isStrWhiteSpace (a @ c # b) = d # rest" for d rest
    proof
      assume "isCloser d"
      with that True have "stripTrailingCommas ((x # a) @ c # b) = d # stripTrailingCommas rest"
        by simp
      with Cons.prems True have "d = CHR '',''"
        by simp
      with \<open>isCloser d\<close> closer_not_comma show False
        by blast
    qed
    then have rest_fixed: "stripTrailingCommas (a @ c # b) = a @ c # b"
      using Cons.prems True by (auto split: list.splits if_splits)
    have "\<not> isCloser d" if "dropWhile isStrWhiteSpace (a @ CHR '','' # ws @ c # b) = d # rest"
      for d rest
      using closer_ahead [OF that, of "c # b"] no_match by blast
    then have "stripTrailingCommas ((x # a) @ CHR '','' # ws @ c # b)
        = x # stripTrailingCommas (a @ CHR '','' # ws @ c # b)"
      using True by (auto split: list.splits)
    with Cons.IH [OF rest_fixed] show ?thesis
      by simp
  qed
qed

lemma escapeMatch_plain:
  "\<forall>c \<in> set m. c \<notin> set [CHR 0x09, CHR 0x0A, CHR 0x0D] \<Longrightarrow> escapeMatch m = m"
  by (induction m) (auto simp: escapeMatch_def escapeControl_def)

lemma escapeControls_plain:
  "\<forall>c \<in> set s. c \<notin> set [CHR 0x09, CHR 0x0A, CHR 0x0D] \<Longrightarrow> escapeControls passed s = s"
proof (induction passed s rule: escapeControls.induct)
  case (1 passed)
  then show ?case by simp
next
  case (2 passed c cs)
  obtain m r where body: "stringBody (c # cs) = (m, r)"
    by (cases "stringBody (c # cs)")
  then have parts: "m @ r = c # cs"
    by (rule stringBody_append)
  then have m: "\<forall>x \<in> set m. x \<notin> set [CHR 0x09, CHR 0x0A, CHR 0x0D]"
    and r: "\<forall>x \<in> set r. x \<notin> set [CHR 0x09, CHR 0x0A, CHR 0x0D]"
    using "2.prems" by (metis Un_iff set_append)+
  have cs: "\<forall>x \<in> set cs. x \<notin> set [CHR 0x09, CHR 0x0A, CHR 0x0D]"
    using "2.prems" by simp
  show ?case
  proof (cases "afterColonQuote passed")
    case False
    with "2.IH"(3) cs show ?thesis
      by simp
  next
    case True
    show ?thesis
    proof (cases "take 1 r = [CHR 0x22] \<and> m \<noteq> []")
      case matched: True
      have "escapeControls (rev m @ passed) r = r"
        using "2.IH"(1) [OF True body [symmetric] matched r] .
      with True matched body parts escapeMatch_plain [OF m] show ?thesis
        by simp
    next
      case unmatched: False
      have "escapeControls (c # passed) cs = cs"
        using "2.IH"(2) [OF True body [symmetric] unmatched cs] .
      with True unmatched body show ?thesis
        by auto
    qed
  qed
qed

text \<open>
  C7, as stated, fails: when the prose before the object contains a brace, the text cut
  out from the first opening brace to the last closing brace is no JSON text, neither
  parse succeeds, and step 2 throws a SyntaxError.
\<close>

theorem prose_with_brace_counterexample:
  \<open>extractScript ''Plan {v2}: {"mainCharacterDescription":"a fox","keyframes":["k0","k1","k2","k3"],"segments":[{"script":"s1"},{"script":"s2"},{"script":"s3"},]} Enjoy!''
     = Inl JsonSyntaxError\<close>
  by (simp add: json_eval repair_eval)

text \<open>
  C7, amended. For every text-generation response that consists of a JSON object text
  wrapped in prose, where the prose before the object contains no opening brace and the
  prose after it no closing brace, and where the object text is a valid JSON text with
  one trailing comma (and any white space) put in before a closing brace or bracket,
  step 2's extraction and repair sequence produces the parsed script, the value of the
  valid text, provided the two repair passes leave the valid text itself as it is (it
  has no comma before a closing bracket inside a string, and the second pass finds
  nothing to escape in it, as is the case, for one, when the text has no tab, line feed
  or carriage return: escapeControls_plain).
\<close>

theorem wrapped_script_with_trailing_comma_parses:
  assumes pre: "CHR ''{'' \<notin> set pre" and post: "CHR ''}'' \<notin> set post"
    and closer: "isCloser c" and space: "list_all isStrWhiteSpace ws"
    and ending: "last (c # b) = CHR ''}''"
    and valid: "JSON_parse (CHR ''{'' # a @ c # b) = Some script"
    and commas: "stripTrailingCommas (CHR ''{'' # a @ c # b) = CHR ''{'' # a @ c # b"
    and controls: "escapeControls [] (CHR ''{'' # a @ c # b) = CHR ''{'' # a @ c # b"
  shows "extractScript (pre @ CHR ''{'' # a @ CHR '','' # ws @ c # b @ post) = Inr script"
proof -
  define jsonStr where "jsonStr = CHR ''{'' # a @ CHR '','' # ws @ c # b"
  define raw where "raw = pre @ jsonStr @ post"
  have start: "indexOf CHR ''{'' raw = Some (length pre)"
    unfolding raw_def jsonStr_def using indexOf_first [OF pre] by simp
  have "last jsonStr = CHR ''}''"
    unfolding jsonStr_def using ending by simp
  then have split: "jsonStr = butlast jsonStr @ [CHR ''}'']"
    unfolding jsonStr_def by (metis append_butlast_last_id list.distinct(1))
  have "raw = (pre @ butlast jsonStr) @ CHR ''}'' # post"
    unfolding raw_def by (subst split) simp
  then have "lastIndexOf CHR ''}'' raw = Some (length (pre @ butlast jsonStr))"
    using lastIndexOf_last [OF post, of "pre @ butlast jsonStr"] by (simp only:)
  moreover have "length (pre @ butlast jsonStr) + 1 = length pre + length jsonStr"
    by (subst (2) split) simp
  ultimately have stop: "\<exists>e. lastIndexOf CHR ''}'' raw = Some e \<and> e + 1 = length pre + length jsonStr"
    by blast
  have cut: "slice raw (length pre) (length pre + length jsonStr) = jsonStr"
    unfolding raw_def by (rule slice_middle)
  have "stripTrailingCommas jsonStr = CHR ''{'' # a @ c # b"
    unfolding jsonStr_def
    using strip_inserted_comma [OF closer space, of "CHR ''{'' # a" b] commas by simp
  then have "repair jsonStr = CHR ''{'' # a @ c # b"
    unfolding repair_def by (simp only: controls)
  then have "parseRepaired (repair jsonStr) = Inr script"
    by (simp add: parseRepaired_def valid)
  with start stop cut have "extractScript raw = Inr script"
    by (auto simp: extractScript_def)
  then show ?thesis
    by (simp add: raw_def jsonStr_def)
qed


theorem wrapped_script_with_trailing_comma_parses_witness:
  \<open>CHR ''{'' \<notin> set ''Here is the plan: '' \<and> CHR ''}'' \<notin> set '' Enjoy!'' \<and>
   JSON_parse (CHR ''{'' # (CHR 0x0A # ''"mainCharacterDescription": "a fox", "keyframes": ["k0","k1","k2","k3"], "segments": [{"script":"s1"},{"script":"s2"},{"script":"s3"}'') @ CHR '']'' # ''}'')
     = Some (JObject
         [(units ''mainCharacterDescription'', JString (units ''a fox'')),
          (units ''keyframes'',
           JArray [JString (units ''k0''), JString (units ''k1''), JString (units ''k2''),
                   JString (units ''k3'')]),
          (units ''segments'',
           JArray [JObject [(units ''script'', JString (units ''s1''))],
                   JObject [(units ''script'', JString (units ''s2''))],
                   JObject [(units ''script'', JString (units ''s3''))]])]) \<and>
   extractScript (''Here is the plan: '' @ CHR ''{'' # (CHR 0x0A # ''"mainCharacterDescription": "a fox", "keyframes": ["k0","k1","k2","k3"], "segments": [{"script":"s1"},{"script":"s2"},{"script":"s3"}'') @ CHR '','' # [CHR 0x0A] @ CHR '']'' # ''}'' @ '' Enjoy!'')
     = Inr (JObject
         [(units ''mainCharacterDescription'', JString (units ''a fox'')),
          (units ''keyframes'',
           JArray [JString (units ''k0''), JString (units ''k1''), JString (units ''k2''),
                   JString (units ''k3'')]),
          (units ''segments'',
           JArray [JObject [(units ''script'', JString (units ''s1''))],
                   JObject [(units ''script'', JString (units ''s2''))],
                   JObject [(units ''script'', JString (units ''s3''))]])])\<close>
proof -
  define a where \<open>a = CHR 0x0A # ''"mainCharacterDescription": "a fox", "keyframes": ["k0","k1","k2","k3"], "segments": [{"script":"s1"},{"script":"s2"},{"script":"s3"}''\<close>
  define script where "script = JObject
         [(units ''mainCharacterDescription'', JString (units ''a fox'')),
          (units ''keyframes'',
           JArray [JString (units ''k0''), JString (units ''k1''), JString (units ''k2''),
                   JString (units ''k3'')]),
          (units ''segments'',
           JArray [JObject [(units ''script'', JString (units ''s1''))],
                   JObject [(units ''script'', JString (units ''s2''))],
                   JObject [(units ''script'', JString (units ''s3''))]])]"
  have pre: "CHR ''{'' \<notin> set ''Here is the plan: ''"
    by simp
  have post: "CHR ''}'' \<notin> set '' Enjoy!''"
    by simp
  have closer: "isCloser CHR '']''"
    by (simp add: isCloser_def)
  have space: "list_all isStrWhiteSpace [CHR 0x0A]"
    by (simp add: isStrWhiteSpace_def)
  have ending: "last (CHR '']'' # ''}'') = CHR ''}''"
    by simp
  have valid: "JSON_parse (CHR ''{'' # a @ CHR '']'' # ''}'') = Some script"
    unfolding a_def script_def by (simp add: json_eval)
  have commas: "stripTrailingCommas (CHR ''{'' # a @ CHR '']'' # ''}'') = CHR ''{'' # a @ CHR '']'' # ''}''"
    unfolding a_def by (simp add: repair_eval)
  have controls: "escapeControls [] (CHR ''{'' # a @ CHR '']'' # ''}'') = CHR ''{'' # a @ CHR '']'' # ''}''"
    unfolding a_def by (simp add: repair_eval)
  show ?thesis
    using wrapped_script_with_trailing_comma_parses
      [OF pre post closer space ending valid commas controls] pre post valid
    unfolding a_def script_def by simp
qed

text \<open>
  The second repair can also break a valid text: a string that ends with a colon makes
  the look-behind hold after its closing quote, and a line feed between that quote and
  the next one is then replaced by the two characters backslash and n, outside of any
  string.
\<close>

lemma repair_breaks_colon_before_newline:
  \<open>JSON_parse (''{"mainCharacterDescription":"Hero:",'' @ [CHR 0x0A] @ ''"keyframes":[],"segments":[]}'')
     = Some (JObject [(units ''mainCharacterDescription'', JString (units ''Hero:'')),
                      (units ''keyframes'', JArray []), (units ''segments'', JArray [])]) \<and>
   extractScript (''{"mainCharacterDescription":"Hero:",'' @ [CHR 0x0A] @ ''"keyframes":[],"segments":[]}'')
     = Inl JsonSyntaxError\<close>
  by (simp add: json_eval repair_eval)

end
